theory Spec2Isabelle
  imports Complex_Main "HOL-Library.Multiset"
begin

section \<open>Data model\<close>

text \<open>
  The program works on Python tuples. A replay frame is \<open>(time_ms, x, y)\<close>: the time is an
  integer (a running sum of integer deltas), the cursor coordinates are floats. A hit
  object is \<open>(time_ms, x, y)\<close> with three integers (\<open>int(parts[..])\<close>). A replay event
  carries the delta to the previous event and the cursor position. A Python float is
  modelled as the real number it denotes. Where the program calls an operation that
  rounds or can raise (\<open>float - int\<close>, \<open>math.hypot\<close>, and in the second model of the
  summary \<open>statistics.mean\<close>, \<open>/\<close> and \<open>*\<close>), the operation is a parameter of the
  model, so that what is proved holds whatever the operation returns; comparisons,
  \<open>abs\<close> and unary minus are exact on floats and are the real ones. The floats
  \<open>inf\<close> and \<open>nan\<close> denote no real number and are not values of the model.
\<close>

type_synonym frame = "int \<times> real \<times> real"
type_synonym hitobject = "int \<times> int \<times> int"
type_synonym event = "int \<times> real \<times> real"
type_synonym deviation = "real \<times> real"

datatype py_error = StatisticsError | ZeroDivisionError

section \<open>Replay timeline\<close>

text \<open>
  \<open>build_replay_timeline\<close>: the loop keeps the running time \<open>t\<close> and appends
  \<open>(t, evt.x, evt.y)\<close> after adding the event's delta.
\<close>

fun build_timeline_from :: "int \<Rightarrow> event list \<Rightarrow> frame list" where
  "build_timeline_from t [] = []"
| "build_timeline_from t ((dt, x, y) # evts) =
     (t + dt, x, y) # build_timeline_from (t + dt) evts"

definition build_replay_timeline :: "event list \<Rightarrow> frame list" where
  "build_replay_timeline replay_data = build_timeline_from 0 replay_data"

text \<open>
  \<open>find_closest_frame\<close>: the \<open>for\<close> loop over the timeline with its two variables
  \<open>best\<close> and \<open>best_dt\<close> (both \<open>None\<close> at the start) and its \<open>break\<close>. The update
  of \<open>best\<close> comes first, the early exit is tested on the updated \<open>best_dt\<close>.
\<close>

fun closest_loop ::
  "frame list \<Rightarrow> int \<Rightarrow> frame option \<Rightarrow> int option \<Rightarrow> frame option \<times> int option" where
  "closest_loop [] target_time best best_dt = (best, best_dt)"
| "closest_loop ((t, x, y) # rest) target_time best best_dt =
     (let dt = \<bar>t - target_time\<bar>;
          upd = (case best_dt of None \<Rightarrow> True | Some b \<Rightarrow> dt < b);
          best' = (if upd then Some (t, x, y) else best);
          best_dt' = (if upd then Some dt else best_dt)
      in if t > target_time \<and> (case best_dt' of None \<Rightarrow> False | Some b \<Rightarrow> t - target_time > b)
         then (best', best_dt')
         else closest_loop rest target_time best' best_dt')"

definition find_closest_frame :: "frame list \<Rightarrow> int \<Rightarrow> int \<Rightarrow> frame option" where
  "find_closest_frame timeline target_time max_delta =
     (case closest_loop timeline target_time None None of
        (None, _) \<Rightarrow> None
      | (Some b, None) \<Rightarrow> None
      | (Some b, Some bdt) \<Rightarrow> if bdt > max_delta then None else Some b)"

text \<open>The time distance of a frame to a target time, \<open>abs(t - target_time)\<close>.\<close>

definition tdist :: "int \<Rightarrow> frame \<Rightarrow> int" where
  "tdist target_time f = \<bar>fst f - target_time\<bar>"

text \<open>
  The same scan without the early exit: the reference the loop is compared with. It
  keeps the current best and replaces it on a strictly smaller distance only.
\<close>

fun full_scan :: "int \<Rightarrow> frame \<Rightarrow> frame list \<Rightarrow> frame" where
  "full_scan T b [] = b"
| "full_scan T b (f # fs) = full_scan T (if tdist T f < tdist T b then f else b) fs"

section \<open>Analysis of one replay\<close>

text \<open>
  \<open>analyze_replay_with_md5\<close> first resolves its inputs through the file system: the
  replay file, the beatmap hash stored in it, the \<open>.osu\<close> file with that MD5 and its
  hit objects. What these steps found is an input of the model: one constructor for each
  early \<open>return []\<close> of the source, and \<open>Resolved hitobjects replay_data\<close> when
  both files were read.
\<close>

datatype replay_source =
    Replay_not_found
  | Replay_load_failed
  | No_beatmap_hash
  | Osu_not_found
  | Resolved "hitobject list" "event list"

text \<open>
  The operations of Python the program calls on floats. Each returns a value or raises:
  \<open>fl_sub x i\<close> is \<open>x - i\<close> for a float \<open>x\<close> and an integer \<open>i\<close> (it raises
  \<open>OverflowError\<close> when \<open>i\<close> is beyond the float range, and rounds), \<open>fl_hypot\<close> is
  \<open>math.hypot\<close>, \<open>fl_mean\<close> is \<open>statistics.mean\<close>, \<open>fl_div\<close> is \<open>/\<close> and
  \<open>fl_mul\<close> is \<open>*\<close>. The type \<open>'e\<close> is the type of the exceptions.
\<close>

record 'e arith =
  fl_sub :: "real \<Rightarrow> int \<Rightarrow> 'e + real"
  fl_hypot :: "real \<Rightarrow> real \<Rightarrow> 'e + real"
  fl_mean :: "real list \<Rightarrow> 'e + real"
  fl_div :: "real \<Rightarrow> real \<Rightarrow> 'e + real"
  fl_mul :: "real \<Rightarrow> real \<Rightarrow> 'e + real"

text \<open>
  The loop over the hit objects, with the list \<open>errors\<close> it appends to. The call to
  \<open>find_closest_frame\<close> passes \<open>max_delta=80\<close>; a hit object without a frame is
  skipped (\<open>continue\<close>). An operation that raises ends the loop with its exception:
  \<open>dx\<close> is computed first, then \<open>dy\<close>, then \<open>dist\<close> (here \<open>dst\<close>).
\<close>

fun errors_loop ::
  "'e arith \<Rightarrow> frame list \<Rightarrow> hitobject list \<Rightarrow> real \<Rightarrow> deviation list
     \<Rightarrow> 'e + deviation list" where
  "errors_loop ar timeline [] include_radius errors = Inr errors"
| "errors_loop ar timeline ((t_obj, x_obj, y_obj) # hitobjects) include_radius errors =
     (case find_closest_frame timeline t_obj 80 of
        None \<Rightarrow> errors_loop ar timeline hitobjects include_radius errors
      | Some (_, x_r, y_r) \<Rightarrow>
          (case fl_sub ar x_r x_obj of
             Inl e \<Rightarrow> Inl e
           | Inr dx \<Rightarrow>
          (case fl_sub ar y_r y_obj of
             Inl e \<Rightarrow> Inl e
           | Inr dy \<Rightarrow>
          (case fl_hypot ar dx dy of
             Inl e \<Rightarrow> Inl e
           | Inr dst \<Rightarrow>
               if dst \<le> include_radius
               then errors_loop ar timeline hitobjects include_radius (errors @ [(dx, dy)])
               else errors_loop ar timeline hitobjects include_radius errors))))"

text \<open>
  The result is a sum: \<open>Inl\<close> is a raised exception, \<open>Inr\<close> is the returned list. The
  source has no \<open>raise\<close> and no check of \<open>include_radius\<close>: only an operation of the
  loop can raise.
\<close>

fun analyze_replay_with_md5 ::
  "'e arith \<Rightarrow> replay_source \<Rightarrow> real \<Rightarrow> 'e + deviation list" where
  "analyze_replay_with_md5 ar Replay_not_found include_radius = Inr []"
| "analyze_replay_with_md5 ar Replay_load_failed include_radius = Inr []"
| "analyze_replay_with_md5 ar No_beatmap_hash include_radius = Inr []"
| "analyze_replay_with_md5 ar Osu_not_found include_radius = Inr []"
| "analyze_replay_with_md5 ar (Resolved hitobjects replay_data) include_radius =
     errors_loop ar (build_replay_timeline replay_data) hitobjects include_radius []"

section \<open>Summary and area adjustment\<close>

text \<open>
  \<open>statistics.mean\<close> raises \<open>StatisticsError\<close> on an empty list; Python's \<open>/\<close>
  raises \<open>ZeroDivisionError\<close> on a zero divisor.
\<close>

definition statistics_mean :: "real list \<Rightarrow> py_error + real" where
  "statistics_mean xs =
     (if xs = [] then Inl StatisticsError else Inr (sum_list xs / real (length xs)))"

definition truediv :: "real \<Rightarrow> real \<Rightarrow> py_error + real" where
  "truediv a b = (if b = 0 then Inl ZeroDivisionError else Inr (a / b))"

text \<open>
  The dictionary \<open>quad_counts\<close> has four fixed keys; \<open>items\<close> lists them in the order
  of the dictionary literal.
\<close>

record quad_counts =
  top_left :: nat
  top_right :: nat
  bottom_left :: nat
  bottom_right :: nat

fun quadrant_loop :: "deviation list \<Rightarrow> quad_counts \<Rightarrow> quad_counts" where
  "quadrant_loop [] qc = qc"
| "quadrant_loop ((dx, dy) # errors) qc =
     quadrant_loop errors
       (if dx < 0 \<and> dy < 0 then qc\<lparr>top_left := top_left qc + 1\<rparr>
        else if dx \<ge> 0 \<and> dy < 0 then qc\<lparr>top_right := top_right qc + 1\<rparr>
        else if dx < 0 \<and> dy \<ge> 0 then qc\<lparr>bottom_left := bottom_left qc + 1\<rparr>
        else qc\<lparr>bottom_right := bottom_right qc + 1\<rparr>)"

definition items :: "quad_counts \<Rightarrow> (string \<times> nat) list" where
  "items qc =
     [(''top-left'', top_left qc), (''top-right'', top_right qc),
      (''bottom-left'', bottom_left qc), (''bottom-right'', bottom_right qc)]"

text \<open>
  The loop that prints \<open>count / total * 100.0\<close> for each quadrant; \<open>n\<close> is the
  source's \<open>total\<close>, \<open>cnt\<close> its \<open>count\<close>.
\<close>

fun percentages :: "(string \<times> nat) list \<Rightarrow> nat \<Rightarrow> py_error + (string \<times> real) list" where
  "percentages [] n = Inr []"
| "percentages ((name, cnt) # rest) n =
     (case truediv (real cnt) (real n) of
        Inl e \<Rightarrow> Inl e
      | Inr q \<Rightarrow>
          (case percentages rest n of
             Inl e \<Rightarrow> Inl e
           | Inr pcts \<Rightarrow> Inr ((name, q * 100) # pcts)))"

text \<open>
  What \<open>summarize_errors\<close> prints, as a value: the numbers before they are formatted
  (\<open>.2f\<close>, \<open>.3f\<close>, \<open>5.1f\<close>), the direction words as the strings of the source.
\<close>

record summary =
  total_samples :: nat
  mean_dx_px :: real
  mean_dy_px :: real
  mean_dx_area :: real
  mean_dy_area :: real
  quadrant_pct :: "(string \<times> real) list"

record adjustment =
  bias_x_mm :: real
  bias_x_dir :: string
  bias_y_mm :: real
  bias_y_dir :: string
  shift_x_mm :: real
  shift_x_dir :: string
  shift_y_mm :: real
  shift_y_dir :: string

datatype suggestion = No_adjustment real | Adjustment adjustment

datatype report = No_usable_errors | Report summary suggestion

definition summarize_errors ::
  "deviation list \<Rightarrow> real \<Rightarrow> real \<Rightarrow> real \<Rightarrow> py_error + report" where
  "summarize_errors errors area_w_mm area_h_mm adjust_threshold_mm =
     (if errors = [] then Inr No_usable_errors
      else
        case statistics_mean (map fst errors) of
          Inl e \<Rightarrow> Inl e
        | Inr mean_dx \<Rightarrow>
        (case statistics_mean (map snd errors) of
          Inl e \<Rightarrow> Inl e
        | Inr mean_dy \<Rightarrow>
        (let mean_dx_mm = mean_dx / 512 * area_w_mm;
             mean_dy_mm = mean_dy / 384 * area_h_mm;
             qc = quadrant_loop errors
                    \<lparr>top_left = 0, top_right = 0, bottom_left = 0, bottom_right = 0\<rparr>;
             n = length errors
         in case percentages (items qc) n of
              Inl e \<Rightarrow> Inl e
            | Inr pcts \<Rightarrow>
            (let summ = \<lparr>total_samples = n, mean_dx_px = mean_dx, mean_dy_px = mean_dy,
                         mean_dx_area = mean_dx_mm, mean_dy_area = mean_dy_mm,
                         quadrant_pct = pcts\<rparr>;
                 abs_dx_mm = \<bar>mean_dx_mm\<bar>;
                 abs_dy_mm = \<bar>mean_dy_mm\<bar>
             in if abs_dx_mm < adjust_threshold_mm \<and> abs_dy_mm < adjust_threshold_mm
                then Inr (Report summ (No_adjustment adjust_threshold_mm))
                else
                  (let dir_x = (if mean_dx > 0 then ''right'' else ''left'');
                       dir_y = (if mean_dy > 0 then ''down'' else ''up'');
                       corr_dx_mm = - mean_dx_mm;
                       corr_dy_mm = - mean_dy_mm;
                       corr_dir_x = (if corr_dx_mm > 0 then ''right'' else ''left'');
                       corr_dir_y = (if corr_dy_mm > 0 then ''down'' else ''up'')
                   in Inr (Report summ (Adjustment
                        \<lparr>bias_x_mm = abs_dx_mm, bias_x_dir = dir_x,
                         bias_y_mm = abs_dy_mm, bias_y_dir = dir_y,
                         shift_x_mm = \<bar>corr_dx_mm\<bar>, shift_x_dir = corr_dir_x,
                         shift_y_mm = \<bar>corr_dy_mm\<bar>, shift_y_dir = corr_dir_y\<rparr>)))))))"

text \<open>
  Reading a printed direction and magnitude back as a signed number, with the sign
  convention the report itself prints: positive is to the right, positive is downwards.
\<close>

definition signed_x :: "string \<Rightarrow> real \<Rightarrow> real" where
  "signed_x dir mm = (if dir = ''right'' then mm else - mm)"

definition signed_y :: "string \<Rightarrow> real \<Rightarrow> real" where
  "signed_y dir mm = (if dir = ''down'' then mm else - mm)"

text \<open>The value \<open>statistics.mean\<close> returns on a non-empty list.\<close>

definition axis_mean :: "real list \<Rightarrow> real" where
  "axis_mean xs = sum_list xs / real (length xs)"

section \<open>The summary with Python's float operations\<close>

text \<open>
  \<open>summarize_errors\<close> once more, with \<open>statistics.mean\<close>, \<open>/\<close> and \<open>*\<close> as the
  operations of an \<open>arith\<close>: the means first, then the two conversions to millimetres,
  then the quadrant counts and their percentages, then the suggestion. The tests
  \<open><\<close> and \<open>>\<close>, \<open>abs\<close> and the unary minus are exact on floats.
\<close>

fun percentages_fl ::
  "'e arith \<Rightarrow> (string \<times> nat) list \<Rightarrow> nat \<Rightarrow> 'e + (string \<times> real) list" where
  "percentages_fl ar [] n = Inr []"
| "percentages_fl ar ((name, cnt) # rest) n =
     (case fl_div ar (real cnt) (real n) of
        Inl e \<Rightarrow> Inl e
      | Inr q \<Rightarrow>
     (case fl_mul ar q 100 of
        Inl e \<Rightarrow> Inl e
      | Inr pct \<Rightarrow>
     (case percentages_fl ar rest n of
        Inl e \<Rightarrow> Inl e
      | Inr pcts \<Rightarrow> Inr ((name, pct) # pcts))))"

definition summarize_errors_fl ::
  "'e arith \<Rightarrow> deviation list \<Rightarrow> real \<Rightarrow> real \<Rightarrow> real \<Rightarrow> 'e + report" where
  "summarize_errors_fl ar errors area_w_mm area_h_mm adjust_threshold_mm =
     (if errors = [] then Inr No_usable_errors
      else
        case fl_mean ar (map fst errors) of
          Inl e \<Rightarrow> Inl e
        | Inr mean_dx \<Rightarrow>
        (case fl_mean ar (map snd errors) of
          Inl e \<Rightarrow> Inl e
        | Inr mean_dy \<Rightarrow>
        (case fl_div ar mean_dx 512 of
          Inl e \<Rightarrow> Inl e
        | Inr qx \<Rightarrow>
        (case fl_mul ar qx area_w_mm of
          Inl e \<Rightarrow> Inl e
        | Inr mean_dx_mm \<Rightarrow>
        (case fl_div ar mean_dy 384 of
          Inl e \<Rightarrow> Inl e
        | Inr qy \<Rightarrow>
        (case fl_mul ar qy area_h_mm of
          Inl e \<Rightarrow> Inl e
        | Inr mean_dy_mm \<Rightarrow>
        (let qc = quadrant_loop errors
                    \<lparr>top_left = 0, top_right = 0, bottom_left = 0, bottom_right = 0\<rparr>;
             n = length errors
         in case percentages_fl ar (items qc) n of
              Inl e \<Rightarrow> Inl e
            | Inr pcts \<Rightarrow>
            (let summ = \<lparr>total_samples = n, mean_dx_px = mean_dx, mean_dy_px = mean_dy,
                         mean_dx_area = mean_dx_mm, mean_dy_area = mean_dy_mm,
                         quadrant_pct = pcts\<rparr>;
                 abs_dx_mm = \<bar>mean_dx_mm\<bar>;
                 abs_dy_mm = \<bar>mean_dy_mm\<bar>
             in if abs_dx_mm < adjust_threshold_mm \<and> abs_dy_mm < adjust_threshold_mm
                then Inr (Report summ (No_adjustment adjust_threshold_mm))
                else
                  (let dir_x = (if mean_dx > 0 then ''right'' else ''left'');
                       dir_y = (if mean_dy > 0 then ''down'' else ''up'');
                       corr_dx_mm = - mean_dx_mm;
                       corr_dy_mm = - mean_dy_mm;
                       corr_dir_x = (if corr_dx_mm > 0 then ''right'' else ''left'');
                       corr_dir_y = (if corr_dy_mm > 0 then ''down'' else ''up'')
                   in Inr (Report summ (Adjustment
                        \<lparr>bias_x_mm = abs_dx_mm, bias_x_dir = dir_x,
                         bias_y_mm = abs_dy_mm, bias_y_dir = dir_y,
                         shift_x_mm = \<bar>corr_dx_mm\<bar>, shift_x_dir = corr_dir_x,
                         shift_y_mm = \<bar>corr_dy_mm\<bar>, shift_y_dir = corr_dir_y\<rparr>)))))))))))"

text \<open>
  The arithmetic that neither rounds nor overflows. It gives what Python gives whenever
  the exact results are floats, as in the instances below; with it
  \<open>summarize_errors_fl\<close> is \<open>summarize_errors\<close>.
\<close>

definition exact_arith :: "py_error arith" where
  "exact_arith =
     \<lparr>fl_sub = (\<lambda>x i. Inr (x - real_of_int i)),
      fl_hypot = (\<lambda>dx dy. Inr (sqrt (dx\<^sup>2 + dy\<^sup>2))),
      fl_mean = statistics_mean,
      fl_div = truediv,
      fl_mul = (\<lambda>a b. Inr (a * b))\<rparr>"

text \<open>
  Whether the operations of one pass of the loop of \<open>analyze_replay_with_md5\<close> all
  return, for one hit object: nothing is computed when no frame is matched.
\<close>

definition pass_returns :: "'e arith \<Rightarrow> frame list \<Rightarrow> hitobject \<Rightarrow> bool" where
  "pass_returns ar timeline h =
     (case h of (t_obj, x_obj, y_obj) \<Rightarrow>
        (case find_closest_frame timeline t_obj 80 of
           None \<Rightarrow> True
         | Some (t_r, x_r, y_r) \<Rightarrow>
             (case fl_sub ar x_r x_obj of
                Inl e \<Rightarrow> False
              | Inr dx \<Rightarrow>
                  (case fl_sub ar y_r y_obj of
                     Inl e \<Rightarrow> False
                   | Inr dy \<Rightarrow> \<not> isl (fl_hypot ar dx dy)))))"

text \<open>
  What one pass of that loop appends for one hit object when its operations return:
  nothing when no frame is matched or \<open>dist\<close> is beyond the radius, the deviation
  \<open>(dx, dy)\<close> otherwise.
\<close>

definition deviation_of :: "'e arith \<Rightarrow> frame list \<Rightarrow> real \<Rightarrow> hitobject \<Rightarrow> deviation list" where
  "deviation_of ar timeline include_radius h =
     (case h of (t_obj, x_obj, y_obj) \<Rightarrow>
        (case find_closest_frame timeline t_obj 80 of
           None \<Rightarrow> []
         | Some (t_r, x_r, y_r) \<Rightarrow>
             (case fl_sub ar x_r x_obj of
                Inl e \<Rightarrow> []
              | Inr dx \<Rightarrow>
                  (case fl_sub ar y_r y_obj of
                     Inl e \<Rightarrow> []
                   | Inr dy \<Rightarrow>
                       (case fl_hypot ar dx dy of
                          Inl e \<Rightarrow> []
                        | Inr dst \<Rightarrow> if dst \<le> include_radius then [(dx, dy)] else [])))))"

section \<open>The nearest-frame scan\<close>

lemma full_scan_keep:
  "(\<And>f. f \<in> set fs \<Longrightarrow> tdist T b \<le> tdist T f) \<Longrightarrow> full_scan T b fs = b"
proof (induction fs)
  case Nil
  show ?case by simp
next
  case (Cons f fs)
  have "\<not> tdist T f < tdist T b" using Cons.prems [of f] by simp
  moreover have "full_scan T b fs = b" using Cons.IH Cons.prems by simp
  ultimately show ?case by simp
qed

lemma full_scan_mem: "full_scan T b fs \<in> set (b # fs)"
  by (induction fs arbitrary: b) (auto split: if_splits)

lemma full_scan_le_start: "tdist T (full_scan T b fs) \<le> tdist T b"
proof (induction fs arbitrary: b)
  case Nil
  show ?case by simp
next
  case (Cons f fs)
  show ?case using Cons.IH [of "if tdist T f < tdist T b then f else b"]
    by (simp split: if_splits)
qed

lemma full_scan_le: "g \<in> set (b # fs) \<Longrightarrow> tdist T (full_scan T b fs) \<le> tdist T g"
proof (induction fs arbitrary: b)
  case Nil
  then show ?case by simp
next
  case (Cons f fs)
  let ?b = "if tdist T f < tdist T b then f else b"
  have start: "tdist T (full_scan T ?b fs) \<le> tdist T ?b" by (rule full_scan_le_start)
  consider "g = b" | "g = f" | "g \<in> set fs" using Cons.prems by auto
  then show ?case
  proof cases
    case 1
    then show ?thesis using start by (simp split: if_splits)
  next
    case 2
    then show ?thesis using start by (simp split: if_splits)
  next
    case 3
    then have "g \<in> set (?b # fs)" by simp
    from Cons.IH [OF this] show ?thesis by simp
  qed
qed

lemma closest_loop_step:
  "closest_loop (f # fs) T (Some b) (Some (tdist T b)) =
     (let b' = (if tdist T f < tdist T b then f else b)
      in if fst f > T \<and> fst f - T > tdist T b' then (Some b', Some (tdist T b'))
         else closest_loop fs T (Some b') (Some (tdist T b')))"
  by (cases f) (auto simp add: tdist_def Let_def)

lemma closest_loop_first:
  "closest_loop (f # fs) T None None = closest_loop fs T (Some f) (Some (tdist T f))"
  by (cases f) (auto simp add: tdist_def Let_def)

text \<open>On a time-sorted rest the loop with the early exit computes what the full scan does.\<close>

lemma closest_loop_full_scan:
  "sorted (map fst fs) \<Longrightarrow>
   closest_loop fs T (Some b) (Some (tdist T b)) =
     (Some (full_scan T b fs), Some (tdist T (full_scan T b fs)))"
proof (induction fs arbitrary: b)
  case Nil
  show ?case by simp
next
  case (Cons f fs)
  let ?b = "if tdist T f < tdist T b then f else b"
  have srt: "sorted (map fst fs)" and later: "\<And>g. g \<in> set fs \<Longrightarrow> fst f \<le> fst g"
    using Cons.prems by auto
  show ?case
  proof (cases "fst f > T \<and> fst f - T > tdist T ?b")
    case True
    have "\<And>g. g \<in> set fs \<Longrightarrow> tdist T ?b \<le> tdist T g"
    proof -
      fix g assume "g \<in> set fs"
      then have "fst f \<le> fst g" by (rule later)
      moreover have "tdist T g = \<bar>fst g - T\<bar>" by (simp add: tdist_def)
      ultimately show "tdist T ?b \<le> tdist T g" using True by linarith
    qed
    then have keep: "full_scan T ?b fs = ?b" by (rule full_scan_keep)
    have "closest_loop (f # fs) T (Some b) (Some (tdist T b)) = (Some ?b, Some (tdist T ?b))"
      using True by (simp only: closest_loop_step Let_def simp_thms if_True)
    moreover have "full_scan T b (f # fs) = ?b" using keep by simp
    ultimately show ?thesis by (simp only:)
  next
    case False
    have "closest_loop (f # fs) T (Some b) (Some (tdist T b)) =
          closest_loop fs T (Some ?b) (Some (tdist T ?b))"
      using False by (simp only: closest_loop_step Let_def simp_thms if_False)
    moreover have "full_scan T b (f # fs) = full_scan T ?b fs" by simp
    ultimately show ?thesis using Cons.IH [OF srt, of ?b] by (simp only:)
  qed
qed

lemma closest_loop_start:
  "sorted (map fst (f # fs)) \<Longrightarrow>
   closest_loop (f # fs) T None None =
     (Some (full_scan T f fs), Some (tdist T (full_scan T f fs)))"
  by (simp add: closest_loop_first closest_loop_full_scan)

lemma find_closest_frame_Nil: "find_closest_frame [] T md = None"
  by (simp add: find_closest_frame_def)

lemma find_closest_frame_Cons:
  "sorted (map fst (f # fs)) \<Longrightarrow>
   find_closest_frame (f # fs) T md =
     (if tdist T (full_scan T f fs) > md then None else Some (full_scan T f fs))"
  by (simp add: find_closest_frame_def closest_loop_start)

lemma Min_tdist_full_scan:
  "Min (tdist T ` set (f # fs)) = tdist T (full_scan T f fs)"
proof (rule Min_eqI)
  show "finite (tdist T ` set (f # fs))" by simp
next
  fix d assume "d \<in> tdist T ` set (f # fs)"
  then obtain g where "g \<in> set (f # fs)" "d = tdist T g" by blast
  then show "tdist T (full_scan T f fs) \<le> d" using full_scan_le [of g f fs T] by simp
next
  show "tdist T (full_scan T f fs) \<in> tdist T ` set (f # fs)"
    using full_scan_mem [of T f fs] by blast
qed

text \<open>
  C1. On a timeline whose times are non-decreasing, whenever the smallest time distance
  to the target is within \<open>max_delta\<close>, \<open>find_closest_frame\<close> returns a frame of the
  timeline whose distance to the target is the smallest of all frames: the early exit
  skips no closer frame.
\<close>

theorem find_closest_frame_nearest:
  assumes "sorted (map fst timeline)"
    and "timeline \<noteq> []"
    and "Min (tdist target_time ` set timeline) \<le> max_delta"
  shows "\<exists>b. find_closest_frame timeline target_time max_delta = Some b
             \<and> b \<in> set timeline
             \<and> (\<forall>g \<in> set timeline. \<bar>fst b - target_time\<bar> \<le> \<bar>fst g - target_time\<bar>)"
proof -
  obtain f fs where tl: "timeline = f # fs" using assms(2) by (cases timeline) auto
  let ?b = "full_scan target_time f fs"
  have "tdist target_time ?b \<le> max_delta"
    using assms(3) by (simp only: tl Min_tdist_full_scan)
  then have "find_closest_frame timeline target_time max_delta = Some ?b"
    using assms(1) by (simp add: tl find_closest_frame_Cons)
  moreover have "?b \<in> set timeline" using full_scan_mem [of target_time f fs] by (simp add: tl)
  moreover have "\<forall>g \<in> set timeline. \<bar>fst ?b - target_time\<bar> \<le> \<bar>fst g - target_time\<bar>"
    using full_scan_le [of _ f fs target_time] by (simp add: tl tdist_def)
  ultimately show ?thesis by blast
qed

theorem find_closest_frame_nearest_witness:
  "sorted (map fst [(0, 0, 0), (10, 1, 1), (30, 2, 2) :: frame])
   \<and> [(0, 0, 0), (10, 1, 1), (30, 2, 2) :: frame] \<noteq> []
   \<and> Min (tdist 12 ` set [(0, 0, 0), (10, 1, 1), (30, 2, 2)]) \<le> 80
   \<and> find_closest_frame [(0, 0, 0), (10, 1, 1), (30, 2, 2)] 12 80 = Some (10, 1, 1)"
proof -
  let ?tl = "[(0, 0, 0), (10, 1, 1), (30, 2, 2)] :: frame list"
  have h1: "sorted (map fst ?tl)" by simp
  have h2: "?tl \<noteq> []" by simp
  have h3: "Min (tdist 12 ` set ?tl) \<le> 80" by (simp add: tdist_def)
  have "find_closest_frame ?tl 12 80 = Some (10, 1, 1)"
    using find_closest_frame_nearest [OF h1 h2 h3] by auto
  with h1 h2 h3 show ?thesis by blast
qed

lemma find_Some_holds: "find P xs = Some x \<Longrightarrow> P x"
  by (induction xs) (auto split: if_splits)

lemma full_scan_first:
  "find (\<lambda>g. tdist T g = tdist T (full_scan T b fs)) (b # fs) = Some (full_scan T b fs)"
proof (induction fs arbitrary: b)
  case Nil
  show ?case by simp
next
  case (Cons f fs)
  show ?case
  proof (cases "tdist T f < tdist T b")
    case True
    let ?r = "full_scan T f fs"
    have r: "full_scan T b (f # fs) = ?r" using True by simp
    have IH: "find (\<lambda>g. tdist T g = tdist T ?r) (f # fs) = Some ?r" by (rule Cons.IH)
    have "tdist T ?r \<le> tdist T f" by (rule full_scan_le_start)
    then have "tdist T b \<noteq> tdist T ?r" using True by simp
    then have "find (\<lambda>g. tdist T g = tdist T ?r) (b # f # fs) = Some ?r"
      using IH by (simp only: find.simps if_False simp_thms)
    then show ?thesis by (simp only: r)
  next
    case False
    let ?r = "full_scan T b fs"
    have r: "full_scan T b (f # fs) = ?r" using False by simp
    have IH: "find (\<lambda>g. tdist T g = tdist T ?r) (b # fs) = Some ?r" by (rule Cons.IH)
    have le: "tdist T ?r \<le> tdist T b" by (rule full_scan_le_start)
    have "find (\<lambda>g. tdist T g = tdist T ?r) (b # f # fs) = Some ?r"
    proof (cases "tdist T b = tdist T ?r")
      case True
      then show ?thesis using IH by (simp only: find.simps if_True simp_thms)
    next
      case neq: False
      then have "tdist T f \<noteq> tdist T ?r" using le False by simp
      then show ?thesis using IH neq by (simp only: find.simps if_False simp_thms)
    qed
    then show ?thesis by (simp only: r)
  qed
qed

lemma find_tie_earlier:
  "sorted (map fst fs) \<Longrightarrow> 0 \<le> k \<Longrightarrow> (\<exists>g \<in> set fs. fst g = T - k) \<Longrightarrow>
   find (\<lambda>g. tdist T g = k) fs = find (\<lambda>g. fst g = T - k) fs"
proof (induction fs)
  case Nil
  then show ?case by simp
next
  case (Cons f fs)
  show ?case
  proof (cases "fst f = T - k")
    case True
    then show ?thesis using Cons.prems(2) by (simp add: tdist_def)
  next
    case False
    then have ex: "\<exists>g \<in> set fs. fst g = T - k" using Cons.prems(3) by auto
    then obtain g where g: "g \<in> set fs" "fst g = T - k" by blast
    have "fst f \<le> fst g" using Cons.prems(1) g(1) by auto
    then have "tdist T f \<noteq> k" using False g(2) Cons.prems(2) by (auto simp add: tdist_def)
    moreover have "sorted (map fst fs)" using Cons.prems(1) by simp
    ultimately show ?thesis using Cons.IH ex Cons.prems(2) False by simp
  qed
qed

text \<open>
  C3. Ties go to the earlier frame. On a timeline whose times are non-decreasing, with a
  frame at \<open>T - k\<close> and a frame at \<open>T + k\<close>, both within \<open>max_delta\<close> and no frame
  strictly closer to \<open>T\<close> than \<open>k\<close> (the two are tied for the nearest),
  \<open>find_closest_frame\<close> returns a frame at time \<open>T - k\<close>: the first frame of the
  timeline with that time.
\<close>

theorem find_closest_frame_tie_earlier:
  assumes "sorted (map fst timeline)"
    and "(T - k, xa, ya) \<in> set timeline"
    and "(T + k, xb, yb) \<in> set timeline"
    and "0 \<le> k" and "k \<le> max_delta"
    and "\<forall>g \<in> set timeline. k \<le> \<bar>fst g - T\<bar>"
  shows "\<exists>b. find_closest_frame timeline T max_delta = Some b \<and> fst b = T - k
             \<and> find (\<lambda>g. fst g = T - k) timeline = Some b"
proof -
  obtain f fs where tl: "timeline = f # fs" using assms(2) by (cases timeline) auto
  let ?b = "full_scan T f fs"
  have "tdist T ?b \<le> tdist T (T - k, xa, ya)"
    using full_scan_le [of "(T - k, xa, ya)" f fs T] assms(2) by (simp add: tl)
  then have "tdist T ?b \<le> k" using assms(4) by (simp add: tdist_def)
  moreover have "k \<le> tdist T ?b"
  proof -
    have "?b \<in> set timeline" using full_scan_mem [of T f fs] by (simp add: tl)
    then show ?thesis using assms(6) by (simp add: tdist_def)
  qed
  ultimately have dk: "tdist T ?b = k" by simp
  have ret: "find_closest_frame timeline T max_delta = Some ?b"
    using assms(1) assms(5) dk by (simp add: tl find_closest_frame_Cons)
  have "find (\<lambda>g. tdist T g = k) timeline = Some ?b"
    using full_scan_first [of T f fs] dk by (simp only: tl)
  moreover have "\<exists>g \<in> set timeline. fst g = T - k" using assms(2) by force
  ultimately have fnd: "find (\<lambda>g. fst g = T - k) timeline = Some ?b"
    using find_tie_earlier [OF assms(1) assms(4), of T] by (simp only:)
  then have "fst ?b = T - k" by (rule find_Some_holds)
  with ret fnd show ?thesis by blast
qed

theorem find_closest_frame_tie_earlier_witness:
  "sorted (map fst [(8, 0, 0), (12, 1, 1) :: frame])
   \<and> (10 - 2, 0, 0) \<in> set [(8, 0, 0), (12, 1, 1) :: frame]
   \<and> (10 + 2, 1, 1) \<in> set [(8, 0, 0), (12, 1, 1) :: frame]
   \<and> (0::int) \<le> 2 \<and> (2::int) \<le> 80
   \<and> 2 \<le> Min (tdist 10 ` set [(8, 0, 0), (12, 1, 1)])
   \<and> find_closest_frame [(8, 0, 0), (12, 1, 1)] 10 80 = Some (8, 0, 0)"
proof -
  let ?tl = "[(8, 0, 0), (12, 1, 1)] :: frame list"
  have h1: "sorted (map fst ?tl)" by simp
  have h2: "(10 - 2, 0, 0) \<in> set ?tl" by simp
  have h3: "(10 + 2, 1, 1) \<in> set ?tl" by simp
  have h4: "(0::int) \<le> 2" by simp
  have h5: "(2::int) \<le> 80" by simp
  have h6: "\<forall>g \<in> set ?tl. 2 \<le> \<bar>fst g - 10\<bar>" by simp
  have h7: "2 \<le> Min (tdist 10 ` set ?tl)" by (simp add: tdist_def)
  have "find_closest_frame ?tl 10 80 = Some (8, 0, 0)"
    using find_closest_frame_tie_earlier [OF h1 h2 h3 h4 h5 h6] by auto
  with h1 h2 h3 h4 h5 h7 show ?thesis by blast
qed

text \<open>
  C4. On a timeline whose times are non-decreasing and for \<open>max_delta \<ge> 0\<close>,
  \<open>find_closest_frame\<close> returns \<open>None\<close> exactly when the timeline is empty or the
  smallest time distance to the target is strictly greater than \<open>max_delta\<close>. A single
  frame at \<open>t0\<close> is matched by a target at \<open>t0 + max_delta\<close> and not by a target at
  \<open>t0 + max_delta + 1\<close>. With \<open>max_delta = 0\<close> a returned frame has exactly the
  target's time, and a frame with the target's time gives a match.
\<close>

theorem find_closest_frame_None_iff:
  assumes "sorted (map fst timeline)" and "0 \<le> max_delta"
  shows "(find_closest_frame timeline T max_delta = None
            \<longleftrightarrow> timeline = [] \<or> max_delta < Min (tdist T ` set timeline))
         \<and> find_closest_frame [(t0, x, y)] (t0 + max_delta) max_delta = Some (t0, x, y)
         \<and> find_closest_frame [(t0, x, y)] (t0 + max_delta + 1) max_delta = None
         \<and> (\<forall>b. find_closest_frame timeline T 0 = Some b \<longrightarrow> fst b = T)
         \<and> ((\<exists>f \<in> set timeline. fst f = T) \<longrightarrow> find_closest_frame timeline T 0 \<noteq> None)"
proof -
  have iff: "\<And>md. find_closest_frame timeline T md = None
            \<longleftrightarrow> timeline = [] \<or> md < Min (tdist T ` set timeline)"
  proof -
    fix md
    show "find_closest_frame timeline T md = None
            \<longleftrightarrow> timeline = [] \<or> md < Min (tdist T ` set timeline)"
    proof (cases timeline)
      case Nil
      then show ?thesis by (simp add: find_closest_frame_Nil)
    next
      case (Cons f fs)
      have "find_closest_frame (f # fs) T md = None \<longleftrightarrow> md < tdist T (full_scan T f fs)"
        using assms(1) by (simp add: Cons find_closest_frame_Cons)
      then show ?thesis by (simp only: Cons Min_tdist_full_scan) simp
    qed
  qed
  have single1: "find_closest_frame [(t0, x, y)] (t0 + max_delta) max_delta = Some (t0, x, y)"
    using assms(2) by (simp add: find_closest_frame_Cons tdist_def)
  have single2: "find_closest_frame [(t0, x, y)] (t0 + max_delta + 1) max_delta = None"
    using assms(2) by (simp add: find_closest_frame_Cons tdist_def)
  have exact1: "\<forall>b. find_closest_frame timeline T 0 = Some b \<longrightarrow> fst b = T"
  proof (cases timeline)
    case Nil
    then show ?thesis by (simp add: find_closest_frame_Nil)
  next
    case (Cons f fs)
    show ?thesis using assms(1)
      by (auto simp add: Cons find_closest_frame_Cons tdist_def split: if_splits)
  qed
  have exact2: "(\<exists>f \<in> set timeline. fst f = T) \<longrightarrow> find_closest_frame timeline T 0 \<noteq> None"
  proof
    assume "\<exists>f \<in> set timeline. fst f = T"
    then obtain f where f: "f \<in> set timeline" "fst f = T" by blast
    then have ne: "timeline \<noteq> []" by auto
    have "tdist T f = 0" using f(2) by (simp add: tdist_def)
    then have "Min (tdist T ` set timeline) \<le> 0" using f(1) by (metis List.finite_set Min_le finite_imageI imageI)
    then have "\<not> 0 < Min (tdist T ` set timeline)" by (simp only: not_less)
    then show "find_closest_frame timeline T 0 \<noteq> None" using iff [of 0] ne by blast
  qed
  from iff [of max_delta] single1 single2 exact1 exact2 show ?thesis by blast
qed

theorem find_closest_frame_None_iff_witness:
  "sorted (map fst [(0, 0, 0), (10, 1, 1), (30, 2, 2) :: frame]) \<and> (0::int) \<le> 5
   \<and> find_closest_frame [(0, 0, 0), (10, 1, 1), (30, 2, 2)] 20 5 = None
   \<and> find_closest_frame [(0, 0, 0), (10, 1, 1), (30, 2, 2)] 15 5 = Some (10, 1, 1)
   \<and> find_closest_frame [(7, 1, 2)] (7 + 5) 5 = Some (7, 1, 2)
   \<and> find_closest_frame [(7, 1, 2)] (7 + 5 + 1) 5 = None"
proof -
  let ?tl = "[(0, 0, 0), (10, 1, 1), (30, 2, 2)] :: frame list"
  have h1: "sorted (map fst ?tl)" by simp
  have h2: "(0::int) \<le> 5" by simp
  have a: "find_closest_frame ?tl 20 5 = None"
    using find_closest_frame_None_iff [OF h1 h2, of 20] by (simp add: tdist_def)
  have b: "find_closest_frame ?tl 15 5 \<noteq> None"
    using find_closest_frame_None_iff [OF h1 h2, of 15] by (simp add: tdist_def)
  have c: "find_closest_frame [(7, 1, 2)] (7 + 5) 5 = Some (7, 1, 2)"
    using find_closest_frame_None_iff [OF h1 h2, of _ 7 1 2] by blast
  have d: "find_closest_frame [(7, 1, 2)] (7 + 5 + 1) 5 = None"
    using find_closest_frame_None_iff [OF h1 h2, of _ 7 1 2] by blast
  have "find_closest_frame ?tl 15 5 = Some (10, 1, 1)"
    by (simp add: find_closest_frame_def Let_def)
  with h1 h2 a c d show ?thesis by blast
qed

section \<open>The summary\<close>

lemma percentages_nonzero:
  "n \<noteq> 0 \<Longrightarrow>
   percentages xs n = Inr (map (\<lambda>(name, cnt). (name, real cnt / real n * 100)) xs)"
  by (induction xs) (auto simp add: truediv_def)

lemma quadrant_loop_counts:
  "quadrant_loop es qc =
     \<lparr>top_left = top_left qc + length (filter (\<lambda>(dx, dy). dx < 0 \<and> dy < 0) es),
      top_right = top_right qc + length (filter (\<lambda>(dx, dy). dx \<ge> 0 \<and> dy < 0) es),
      bottom_left = bottom_left qc + length (filter (\<lambda>(dx, dy). dx < 0 \<and> dy \<ge> 0) es),
      bottom_right = bottom_right qc + length (filter (\<lambda>(dx, dy). dx \<ge> 0 \<and> dy \<ge> 0) es)\<rparr>"
proof (induction es arbitrary: qc)
  case Nil
  show ?case by simp
next
  case (Cons e es)
  obtain dx dy where e: "e = (dx, dy)" by (cases e) auto
  show ?case by (auto simp add: e Cons.IH)
qed

text \<open>
  On a non-empty list no step of \<open>summarize_errors\<close> raises, and the report is the
  following value.
\<close>

lemma summarize_errors_nonempty:
  assumes "errors \<noteq> []"
  shows "summarize_errors errors w h th =
     Inr (Report
       \<lparr>total_samples = length errors,
        mean_dx_px = axis_mean (map fst errors),
        mean_dy_px = axis_mean (map snd errors),
        mean_dx_area = axis_mean (map fst errors) / 512 * w,
        mean_dy_area = axis_mean (map snd errors) / 384 * h,
        quadrant_pct = map (\<lambda>(name, cnt). (name, real cnt / real (length errors) * 100))
          (items (quadrant_loop errors
             \<lparr>top_left = 0, top_right = 0, bottom_left = 0, bottom_right = 0\<rparr>))\<rparr>
       (if \<bar>axis_mean (map fst errors) / 512 * w\<bar> < th
            \<and> \<bar>axis_mean (map snd errors) / 384 * h\<bar> < th
        then No_adjustment th
        else Adjustment
          \<lparr>bias_x_mm = \<bar>axis_mean (map fst errors) / 512 * w\<bar>,
           bias_x_dir = (if axis_mean (map fst errors) > 0 then ''right'' else ''left''),
           bias_y_mm = \<bar>axis_mean (map snd errors) / 384 * h\<bar>,
           bias_y_dir = (if axis_mean (map snd errors) > 0 then ''down'' else ''up''),
           shift_x_mm = \<bar>- (axis_mean (map fst errors) / 512 * w)\<bar>,
           shift_x_dir = (if - (axis_mean (map fst errors) / 512 * w) > 0 then ''right'' else ''left''),
           shift_y_mm = \<bar>- (axis_mean (map snd errors) / 384 * h)\<bar>,
           shift_y_dir = (if - (axis_mean (map snd errors) / 384 * h) > 0 then ''down'' else ''up'')\<rparr>))"
proof -
  have n: "length errors \<noteq> 0" using assms by simp
  have mx: "statistics_mean (map fst errors) = Inr (axis_mean (map fst errors))"
    using assms by (simp add: statistics_mean_def axis_mean_def)
  have my: "statistics_mean (map snd errors) = Inr (axis_mean (map snd errors))"
    using assms by (simp add: statistics_mean_def axis_mean_def)
  show ?thesis
    unfolding summarize_errors_def
    by (simp only: assms if_False mx my sum.case Let_def percentages_nonzero [OF n])
      (simp only: if_distrib [of Inr] if_distrib [of "Report s" for s])
qed

text \<open>
  C7. On the empty list \<open>summarize_errors\<close> gives the "no usable errors" report, which
  carries no statistic, for every area width, area height and threshold; and on no input
  at all does it raise: neither \<open>statistics.mean\<close> on an empty list nor a division by
  a zero total is reached.
\<close>

theorem summarize_errors_empty:
  "summarize_errors [] area_w_mm area_h_mm adjust_threshold_mm = Inr No_usable_errors
   \<and> summarize_errors errors area_w_mm area_h_mm adjust_threshold_mm \<noteq> Inl e"
proof (cases "errors = []")
  case True
  then show ?thesis by (simp add: summarize_errors_def)
next
  case False
  have "summarize_errors [] area_w_mm area_h_mm adjust_threshold_mm = Inr No_usable_errors"
    by (simp add: summarize_errors_def)
  moreover have "summarize_errors errors area_w_mm area_h_mm adjust_threshold_mm \<noteq> Inl e"
    by (simp only: summarize_errors_nonempty [OF False]) simp
  ultimately show ?thesis by simp
qed

theorem summarize_errors_empty_witness:
  "summarize_errors [] 80 50 (1 / 4) = Inr No_usable_errors
   \<and> summarize_errors [(3, - 4)] 0 0 0 \<noteq> Inl ZeroDivisionError"
  using summarize_errors_empty [of 80 50 "1 / 4"]
    summarize_errors_empty [of 0 0 0 "[(3, - 4)]" ZeroDivisionError]
  by simp

section \<open>The report on given vectors\<close>

lemma four_vectors_value:
  "summarize_errors [(10, 0), (- 10, 0), (0, 10), (0, - 10)] w h th =
     Inr (Report
       \<lparr>total_samples = 4, mean_dx_px = 0, mean_dy_px = 0, mean_dx_area = 0, mean_dy_area = 0,
        quadrant_pct = [(''top-left'', 0), (''top-right'', 25),
                        (''bottom-left'', 25), (''bottom-right'', 50)]\<rparr>
       (if 0 < th then No_adjustment th
        else Adjustment
          \<lparr>bias_x_mm = 0, bias_x_dir = ''left'', bias_y_mm = 0, bias_y_dir = ''up'',
           shift_x_mm = 0, shift_x_dir = ''left'', shift_y_mm = 0, shift_y_dir = ''up''\<rparr>))"
  by (simp add: summarize_errors_def statistics_mean_def truediv_def items_def Let_def)

text \<open>
  C2 does not hold of the code as stated. On the four vectors \<open>(10, 0)\<close>, \<open>(-10, 0)\<close>,
  \<open>(0, 10)\<close>, \<open>(0, -10)\<close> both means are \<open>0\<close>, but the quadrant shares are not 25%
  each: a zero coordinate counts with the non-negative side, so \<open>(10, 0)\<close> and
  \<open>(0, 10)\<close> are both bottom-right, \<open>(-10, 0)\<close> is bottom-left, \<open>(0, -10)\<close> is
  top-right and no vector is top-left.
\<close>

theorem four_vectors_counterexample:
  "summarize_errors [(10, 0), (- 10, 0), (0, 10), (0, - 10)] 80 50 (1 / 4) =
     Inr (Report
       \<lparr>total_samples = 4, mean_dx_px = 0, mean_dy_px = 0, mean_dx_area = 0, mean_dy_area = 0,
        quadrant_pct = [(''top-left'', 0), (''top-right'', 25),
                        (''bottom-left'', 25), (''bottom-right'', 50)]\<rparr>
       (No_adjustment (1 / 4)))
   \<and> summarize_errors [(10, 0), (- 10, 0), (0, 10), (0, - 10)] 80 50 (1 / 4) \<noteq>
     Inr (Report
       \<lparr>total_samples = 4, mean_dx_px = 0, mean_dy_px = 0, mean_dx_area = 0, mean_dy_area = 0,
        quadrant_pct = [(''top-left'', 25), (''top-right'', 25),
                        (''bottom-left'', 25), (''bottom-right'', 25)]\<rparr>
       (No_adjustment (1 / 4)))"
  by (simp add: four_vectors_value)

text \<open>
  C2, as amended. On these four vectors \<open>summarize_errors\<close> reports \<open>meanDx = 0\<close>,
  \<open>meanDy = 0\<close> (also in millimetres) and the quadrant shares top-left 0%, top-right
  25%, bottom-left 25%, bottom-right 50%, for every area width, area height and threshold.
\<close>

theorem four_vectors_report:
  "\<exists>g. summarize_errors [(10, 0), (- 10, 0), (0, 10), (0, - 10)] area_w_mm area_h_mm th =
     Inr (Report
       \<lparr>total_samples = 4, mean_dx_px = 0, mean_dy_px = 0, mean_dx_area = 0, mean_dy_area = 0,
        quadrant_pct = [(''top-left'', 0), (''top-right'', 25),
                        (''bottom-left'', 25), (''bottom-right'', 50)]\<rparr> g)"
  by (simp only: four_vectors_value) blast

theorem four_vectors_report_witness:
  "\<exists>g. summarize_errors [(10, 0), (- 10, 0), (0, 10), (0, - 10)] 80 50 (1 / 4) =
     Inr (Report
       \<lparr>total_samples = 4, mean_dx_px = 0, mean_dy_px = 0, mean_dx_area = 0, mean_dy_area = 0,
        quadrant_pct = [(''top-left'', 0), (''top-right'', 25),
                        (''bottom-left'', 25), (''bottom-right'', 50)]\<rparr> g)"
  using four_vectors_report [of 80 50 "1 / 4"] .

section \<open>Order of the vectors\<close>

lemma quadrant_loop_mset:
  assumes "mset es = mset es'"
  shows "quadrant_loop es qc = quadrant_loop es' qc"
proof -
  have "\<And>P. length (filter P es) = length (filter P es')"
  proof -
    fix P :: "deviation \<Rightarrow> bool"
    have "mset (filter P es) = mset (filter P es')" using assms by (simp only: mset_filter)
    then show "length (filter P es) = length (filter P es')" by (rule mset_eq_length)
  qed
  then show ?thesis by (simp only: quadrant_loop_counts)
qed

lemma axis_mean_mset:
  assumes "mset es = mset es'"
  shows "axis_mean (map f es) = axis_mean (map f es')"
proof -
  have "mset (map f es) = mset (map f es')" using assms by (simp only: mset_map)
  then have "sum_list (map f es) = sum_list (map f es')" by (metis sum_mset_sum_list)
  moreover have "length es = length es'" using assms by (rule mset_eq_length)
  ultimately show ?thesis by (simp add: axis_mean_def)
qed

text \<open>
  C9. \<open>summarize_errors\<close> does not depend on the order of the vectors: two lists with the
  same elements and multiplicities give the same result, for the same area width, area
  height and threshold.
\<close>

theorem summarize_errors_permutation:
  assumes "mset errors = mset errors'"
  shows "summarize_errors errors area_w_mm area_h_mm th
       = summarize_errors errors' area_w_mm area_h_mm th"
proof (cases "errors = []")
  case True
  then have "errors' = []" using assms by simp
  with True show ?thesis by simp
next
  case False
  then have ne: "errors' \<noteq> []" using assms by auto
  have len: "length errors = length errors'" using assms by (rule mset_eq_length)
  show ?thesis
    by (simp only: summarize_errors_nonempty [OF False] summarize_errors_nonempty [OF ne]
        axis_mean_mset [OF assms] quadrant_loop_mset [OF assms] len)
qed

theorem summarize_errors_permutation_witness:
  "mset [(3, 4), (- 1, 2), (0, - 5) :: deviation] = mset [(0, - 5), (3, 4), (- 1, 2) :: deviation]
   \<and> summarize_errors [(3, 4), (- 1, 2), (0, - 5)] 80 50 (1 / 4)
     = summarize_errors [(0, - 5), (3, 4), (- 1, 2)] 80 50 (1 / 4)"
proof -
  have h: "mset [(3, 4), (- 1, 2), (0, - 5) :: deviation] = mset [(0, - 5), (3, 4), (- 1, 2) :: deviation]"
    by simp
  from h summarize_errors_permutation [OF h, of 80 50 "1 / 4"] show ?thesis by blast
qed

section \<open>Direction words at zero\<close>

text \<open>
  C10. When a suggestion is made, an axis whose mean is exactly \<open>0\<close> is labelled with the
  negative side: \<open>0\<close> mm "to the left" with a shift of \<open>0\<close> mm "towards the left", and
  \<open>0\<close> mm "up" with a shift of \<open>0\<close> mm "towards up". The quadrant count goes the other
  way: a vector with \<open>dx = 0\<close> is counted in a right quadrant, one with \<open>dy = 0\<close> in a
  bottom quadrant.
\<close>

theorem zero_mean_labels:
  assumes "errors \<noteq> []"
    and "summarize_errors errors area_w_mm area_h_mm th = Inr (Report s (Adjustment a))"
  shows "(statistics_mean (map fst errors) = Inr 0 \<longrightarrow>
            bias_x_mm a = 0 \<and> bias_x_dir a = ''left'' \<and> shift_x_mm a = 0 \<and> shift_x_dir a = ''left'')
       \<and> (statistics_mean (map snd errors) = Inr 0 \<longrightarrow>
            bias_y_mm a = 0 \<and> bias_y_dir a = ''up'' \<and> shift_y_mm a = 0 \<and> shift_y_dir a = ''up'')
       \<and> quadrant_loop [(0, dy)] qc =
            (if dy < 0 then qc\<lparr>top_right := top_right qc + 1\<rparr>
             else qc\<lparr>bottom_right := bottom_right qc + 1\<rparr>)
       \<and> quadrant_loop [(dx, 0)] qc =
            (if dx < 0 then qc\<lparr>bottom_left := bottom_left qc + 1\<rparr>
             else qc\<lparr>bottom_right := bottom_right qc + 1\<rparr>)"
proof -
  have mx: "statistics_mean (map fst errors) = Inr (axis_mean (map fst errors))"
    using assms(1) by (simp add: statistics_mean_def axis_mean_def)
  have my: "statistics_mean (map snd errors) = Inr (axis_mean (map snd errors))"
    using assms(1) by (simp add: statistics_mean_def axis_mean_def)
  note val = assms(2) [unfolded summarize_errors_nonempty [OF assms(1)]]
  have x: "statistics_mean (map fst errors) = Inr 0 \<longrightarrow>
            bias_x_mm a = 0 \<and> bias_x_dir a = ''left'' \<and> shift_x_mm a = 0 \<and> shift_x_dir a = ''left''"
    using val by (auto simp add: mx split: if_splits)
  have y: "statistics_mean (map snd errors) = Inr 0 \<longrightarrow>
            bias_y_mm a = 0 \<and> bias_y_dir a = ''up'' \<and> shift_y_mm a = 0 \<and> shift_y_dir a = ''up''"
    using val by (auto simp add: my split: if_splits)
  have q1: "quadrant_loop [(0, dy)] qc =
            (if dy < 0 then qc\<lparr>top_right := top_right qc + 1\<rparr>
             else qc\<lparr>bottom_right := bottom_right qc + 1\<rparr>)" by simp
  have q2: "quadrant_loop [(dx, 0)] qc =
            (if dx < 0 then qc\<lparr>bottom_left := bottom_left qc + 1\<rparr>
             else qc\<lparr>bottom_right := bottom_right qc + 1\<rparr>)" by simp
  from x y q1 q2 show ?thesis by blast
qed

lemma zero_x_value:
  "summarize_errors [(0, 4)] 512 384 (1 / 4) =
     Inr (Report
       \<lparr>total_samples = 1, mean_dx_px = 0, mean_dy_px = 4, mean_dx_area = 0, mean_dy_area = 4,
        quadrant_pct = [(''top-left'', 0), (''top-right'', 0),
                        (''bottom-left'', 0), (''bottom-right'', 100)]\<rparr>
       (Adjustment
          \<lparr>bias_x_mm = 0, bias_x_dir = ''left'', bias_y_mm = 4, bias_y_dir = ''down'',
           shift_x_mm = 0, shift_x_dir = ''left'', shift_y_mm = 4, shift_y_dir = ''up''\<rparr>))"
  by (simp add: summarize_errors_def statistics_mean_def truediv_def items_def Let_def)

theorem zero_mean_labels_witness:
  "[(0, 4) :: deviation] \<noteq> []
   \<and> summarize_errors [(0, 4)] 512 384 (1 / 4) =
     Inr (Report
       \<lparr>total_samples = 1, mean_dx_px = 0, mean_dy_px = 4, mean_dx_area = 0, mean_dy_area = 4,
        quadrant_pct = [(''top-left'', 0), (''top-right'', 0),
                        (''bottom-left'', 0), (''bottom-right'', 100)]\<rparr>
       (Adjustment
          \<lparr>bias_x_mm = 0, bias_x_dir = ''left'', bias_y_mm = 4, bias_y_dir = ''down'',
           shift_x_mm = 0, shift_x_dir = ''left'', shift_y_mm = 4, shift_y_dir = ''up''\<rparr>))
   \<and> statistics_mean (map fst [(0, 4) :: deviation]) = Inr 0
   \<and> quadrant_loop [(0, 4)] \<lparr>top_left = 0, top_right = 0, bottom_left = 0, bottom_right = 0\<rparr>
       = \<lparr>top_left = 0, top_right = 0, bottom_left = 0, bottom_right = 1\<rparr>"
proof -
  have h1: "[(0, 4) :: deviation] \<noteq> []" by simp
  have h3: "statistics_mean (map fst [(0, 4) :: deviation]) = Inr 0"
    by (simp add: statistics_mean_def)
  have "quadrant_loop [(0, 4)] \<lparr>top_left = 0, top_right = 0, bottom_left = 0, bottom_right = 0\<rparr>
       = \<lparr>top_left = 0, top_right = 0, bottom_left = 0, bottom_right = 1\<rparr>"
    using zero_mean_labels [OF h1 zero_x_value, of 4
        "\<lparr>top_left = 0, top_right = 0, bottom_left = 0, bottom_right = 0\<rparr>"]
    by simp
  with h1 h3 zero_x_value show ?thesis by blast
qed

section \<open>Timelines built from a replay\<close>

text \<open>
  The hypothesis of the scan theorems is met by what \<open>build_replay_timeline\<close> builds:
  when no event has a negative delta, the times of the timeline are non-decreasing.
\<close>

lemma build_timeline_from_lower:
  "\<forall>e \<in> set evts. 0 \<le> fst e \<Longrightarrow> f \<in> set (build_timeline_from t evts) \<Longrightarrow> t \<le> fst f"
proof (induction evts arbitrary: t)
  case Nil
  then show ?case by simp
next
  case (Cons e evts)
  obtain dt x y where e: "e = (dt, x, y)" by (cases e) auto
  have dt: "0 \<le> dt" using Cons.prems(1) e by simp
  from Cons.prems(2) consider "f = (t + dt, x, y)" | "f \<in> set (build_timeline_from (t + dt) evts)"
    by (auto simp add: e)
  then show ?case
  proof cases
    case 1
    then show ?thesis using dt by simp
  next
    case 2
    have "t + dt \<le> fst f" using Cons.IH [OF _ 2] Cons.prems(1) by simp
    then show ?thesis using dt by simp
  qed
qed

lemma build_timeline_from_sorted:
  "\<forall>e \<in> set evts. 0 \<le> fst e \<Longrightarrow> sorted (map fst (build_timeline_from t evts))"
proof (induction evts arbitrary: t)
  case Nil
  show ?case by simp
next
  case (Cons e evts)
  obtain dt x y where e: "e = (dt, x, y)" by (cases e) auto
  have rest: "\<forall>e \<in> set evts. 0 \<le> fst e" using Cons.prems by simp
  have "\<And>f. f \<in> set (build_timeline_from (t + dt) evts) \<Longrightarrow> t + dt \<le> fst f"
    using build_timeline_from_lower [OF rest] by blast
  then show ?case using Cons.IH [OF rest, of "t + dt"] by (auto simp add: e)
qed

lemma build_replay_timeline_sorted:
  "\<forall>e \<in> set replay_data. 0 \<le> fst e \<Longrightarrow> sorted (map fst (build_replay_timeline replay_data))"
  by (simp add: build_replay_timeline_def build_timeline_from_sorted)

section \<open>The deviation filter\<close>

lemma errors_loop_Inr:
  "errors_loop ar fr hs r acc = Inr out \<Longrightarrow>
   out = acc @ concat (map (deviation_of ar fr r) hs)"
proof (induction hs arbitrary: acc)
  case Nil
  then show ?case by simp
next
  case (Cons h hs)
  obtain t x y where h: "h = (t, x, y)" by (cases h) auto
  show ?case
  proof (cases "find_closest_frame fr t 80")
    case None
    then have "errors_loop ar fr hs r acc = Inr out" using Cons.prems by (simp add: h)
    from Cons.IH [OF this] show ?thesis using None by (simp add: h deviation_of_def)
  next
    case (Some f)
    obtain tr xr yr where f: "f = (tr, xr, yr)" by (cases f) auto
    from Cons.prems obtain dx where dx: "fl_sub ar xr x = Inr dx"
      by (cases "fl_sub ar xr x") (simp_all add: h Some f)
    from Cons.prems obtain dy where dy: "fl_sub ar yr y = Inr dy"
      by (cases "fl_sub ar yr y") (simp_all add: h Some f dx)
    from Cons.prems obtain dst where dst: "fl_hypot ar dx dy = Inr dst"
      by (cases "fl_hypot ar dx dy") (simp_all add: h Some f dx dy)
    show ?thesis
    proof (cases "dst \<le> r")
      case True
      then have "errors_loop ar fr hs r (acc @ [(dx, dy)]) = Inr out"
        using Cons.prems by (simp add: h Some f dx dy dst)
      from Cons.IH [OF this] show ?thesis
        using True by (simp add: h Some f dx dy dst deviation_of_def)
    next
      case False
      then have "errors_loop ar fr hs r acc = Inr out"
        using Cons.prems by (simp add: h Some f dx dy dst)
      from Cons.IH [OF this] show ?thesis
        using False by (simp add: h Some f dx dy dst deviation_of_def)
    qed
  qed
qed

lemma errors_loop_returns:
  "list_all (pass_returns ar fr) hs \<Longrightarrow> \<exists>out. errors_loop ar fr hs r acc = Inr out"
proof (induction hs arbitrary: acc)
  case Nil
  show ?case by simp
next
  case (Cons h hs)
  obtain t x y where h: "h = (t, x, y)" by (cases h) auto
  have rest: "list_all (pass_returns ar fr) hs" and here: "pass_returns ar fr (t, x, y)"
    using Cons.prems by (simp_all add: h)
  show ?case
  proof (cases "find_closest_frame fr t 80")
    case None
    then show ?thesis using Cons.IH [OF rest, of acc] by (simp add: h)
  next
    case (Some f)
    obtain tr xr yr where f: "f = (tr, xr, yr)" by (cases f) auto
    from here obtain dx where dx: "fl_sub ar xr x = Inr dx"
      by (cases "fl_sub ar xr x") (simp_all add: pass_returns_def Some f)
    from here obtain dy where dy: "fl_sub ar yr y = Inr dy"
      by (cases "fl_sub ar yr y") (simp_all add: pass_returns_def Some f dx)
    from here obtain dst where dst: "fl_hypot ar dx dy = Inr dst"
      by (cases "fl_hypot ar dx dy") (simp_all add: pass_returns_def Some f dx dy)
    show ?thesis
      using Cons.IH [OF rest, of acc] Cons.IH [OF rest, of "acc @ [(dx, dy)]"]
      by (simp add: h Some f dx dy dst)
  qed
qed

lemma errors_loop_Inl_radius:
  "errors_loop ar fr hs r acc = Inl e \<longleftrightarrow> errors_loop ar fr hs r' acc' = Inl e"
proof (induction hs arbitrary: acc acc')
  case Nil
  show ?case by simp
next
  case (Cons h hs)
  obtain t x y where h: "h = (t, x, y)" by (cases h) auto
  show ?case
  proof (cases "find_closest_frame fr t 80")
    case None
    then show ?thesis using Cons.IH [of acc acc'] by (simp add: h)
  next
    case (Some f)
    obtain tr xr yr where f: "f = (tr, xr, yr)" by (cases f) auto
    show ?thesis
    proof (cases "fl_sub ar xr x")
      case (Inl e1)
      then show ?thesis by (simp add: h Some f)
    next
      case dx: (Inr dx)
      show ?thesis
      proof (cases "fl_sub ar yr y")
        case (Inl e2)
        then show ?thesis by (simp add: h Some f dx)
      next
        case dy: (Inr dy)
        show ?thesis
        proof (cases "fl_hypot ar dx dy")
          case (Inl e3)
          then show ?thesis by (simp add: h Some f dx dy)
        next
          case dst: (Inr dst)
          show ?thesis
            using Cons.IH [of acc acc'] Cons.IH [of "acc @ [(dx, dy)]" acc']
              Cons.IH [of acc "acc' @ [(dx, dy)]"]
              Cons.IH [of "acc @ [(dx, dy)]" "acc' @ [(dx, dy)]"]
            by (simp add: h Some f dx dy dst)
        qed
      qed
    qed
  qed
qed

lemma deviation_of_negative:
  assumes "r < 0" and "\<forall>dx dy d. fl_hypot ar dx dy = Inr d \<longrightarrow> 0 \<le> d"
  shows "deviation_of ar fr r h = []"
proof -
  have "\<And>dx dy d. fl_hypot ar dx dy = Inr d \<Longrightarrow> \<not> d \<le> r"
  proof -
    fix dx dy d assume "fl_hypot ar dx dy = Inr d"
    then have "0 \<le> d" using assms(2) by blast
    then show "\<not> d \<le> r" using assms(1) by linarith
  qed
  then show ?thesis
    by (auto simp add: deviation_of_def split: prod.splits option.splits sum.splits)
qed

text \<open>
  C5. For a resolved replay, whatever \<open>float - int\<close> and \<open>math.hypot\<close> return: when the
  operations of every pass return, the function returns the list \<open>concat (map kept
  hitobjects)\<close>, and whenever it returns at all it returns that list. Here \<open>kept\<close>
  gives, for one hit object: nothing when no frame is matched; for a matched frame
  \<open>(_, x_r, y_r)\<close> the deviation \<open>dx = x_r - x_obj\<close>, \<open>dy = y_r - y_obj\<close>, kept if
  and only if \<open>dist \<le> include_radius\<close> for \<open>dist = math.hypot(dx, dy)\<close>, the
  program's value of \<open>sqrt (dx\<^sup>2 + dy\<^sup>2)\<close>; equality keeps it.
\<close>

theorem analyze_keeps_within_radius:
  assumes "kept = (\<lambda>(t_obj, x_obj, y_obj).
        case find_closest_frame (build_replay_timeline replay_data) t_obj 80 of
          None \<Rightarrow> []
        | Some (t_r, x_r, y_r) \<Rightarrow>
            (case fl_sub ar x_r x_obj of
               Inl e \<Rightarrow> []
             | Inr dx \<Rightarrow>
                 (case fl_sub ar y_r y_obj of
                    Inl e \<Rightarrow> []
                  | Inr dy \<Rightarrow>
                      (case fl_hypot ar dx dy of
                         Inl e \<Rightarrow> []
                       | Inr dst \<Rightarrow> if dst \<le> include_radius then [(dx, dy)] else []))))"
  shows "(list_all (pass_returns ar (build_replay_timeline replay_data)) hitobjects \<longrightarrow>
            analyze_replay_with_md5 ar (Resolved hitobjects replay_data) include_radius
              = Inr (concat (map kept hitobjects)))
       \<and> (\<forall>errors.
            analyze_replay_with_md5 ar (Resolved hitobjects replay_data) include_radius = Inr errors
              \<longrightarrow> errors = concat (map kept hitobjects))"
proof -
  let ?fr = "build_replay_timeline replay_data"
  have k: "kept = deviation_of ar ?fr include_radius"
    by (rule ext) (simp add: assms deviation_of_def)
  have B: "\<forall>errors.
            analyze_replay_with_md5 ar (Resolved hitobjects replay_data) include_radius = Inr errors
              \<longrightarrow> errors = concat (map kept hitobjects)"
    using errors_loop_Inr [of ar ?fr hitobjects include_radius "[]"] by (simp add: k)
  have A: "list_all (pass_returns ar ?fr) hitobjects \<longrightarrow>
            analyze_replay_with_md5 ar (Resolved hitobjects replay_data) include_radius
              = Inr (concat (map kept hitobjects))"
  proof
    assume "list_all (pass_returns ar ?fr) hitobjects"
    then obtain out where
      "analyze_replay_with_md5 ar (Resolved hitobjects replay_data) include_radius = Inr out"
      using errors_loop_returns [of ar ?fr hitobjects include_radius "[]"] by auto
    then show "analyze_replay_with_md5 ar (Resolved hitobjects replay_data) include_radius
              = Inr (concat (map kept hitobjects))" using B by simp
  qed
  from A B show ?thesis by blast
qed

text \<open>
  An instance where the float operations are exact: a deviation of \<open>(3, 4)\<close> at radius
  \<open>5\<close> is on the boundary and is kept, a frame far from its hit object is dropped, and
  a hit object with no frame within 80 ms contributes nothing.
\<close>

theorem analyze_keeps_within_radius_witness:
  "list_all
     (pass_returns exact_arith (build_replay_timeline [(100, 3, 4), (16, 200, 200), (300, 13, 10)]))
     [(100, 0, 0), (116, 0, 0), (250, 0, 0)]
   \<and> analyze_replay_with_md5 exact_arith
     (Resolved [(100, 0, 0), (116, 0, 0), (250, 0, 0)] [(100, 3, 4), (16, 200, 200), (300, 13, 10)]) 5
   = Inr [(3, 4)]"
proof -
  let ?evs = "[(100, 3, 4), (16, 200, 200), (300, 13, 10)] :: event list"
  let ?hs = "[(100, 0, 0), (116, 0, 0), (250, 0, 0)] :: hitobject list"
  let ?fr = "[(100, 3, 4), (116, 200, 200), (416, 13, 10)] :: frame list"
  have tline: "build_replay_timeline ?evs = ?fr"
    by (simp add: build_replay_timeline_def)
  have f1: "find_closest_frame ?fr 100 80 = Some (100, 3, 4)"
    by (simp add: find_closest_frame_def Let_def)
  have f2: "find_closest_frame ?fr 116 80 = Some (116, 200, 200)"
    by (simp add: find_closest_frame_def Let_def)
  have f3: "find_closest_frame ?fr 250 80 = None"
    by (simp add: find_closest_frame_def Let_def)
  have s1: "sqrt 25 \<le> 5" using real_sqrt_abs [of 5] by simp
  have s2: "\<not> sqrt 80000 \<le> 5"
    using real_sqrt_le_iff [of 80000 25] real_sqrt_abs [of 5] by simp
  have ret: "list_all (pass_returns exact_arith (build_replay_timeline ?evs)) ?hs"
    by (simp add: tline pass_returns_def f1 f2 f3 exact_arith_def)
  have "analyze_replay_with_md5 exact_arith (Resolved ?hs ?evs) 5 = Inr [(3, 4)]"
    using analyze_keeps_within_radius [OF refl, of exact_arith ?evs ?hs 5] ret
    by (simp add: tline f1 f2 f3 s1 s2 exact_arith_def)
  with ret show ?thesis by blast
qed

text \<open>
  C8 does not hold of the code: a negative inclusion radius is not rejected. With a hit
  object and a frame at the same time and place the deviation is \<open>(0, 0)\<close>, and with
  radius \<open>-1\<close> the function returns normally, with the empty list.
\<close>

theorem negative_radius_counterexample:
  "analyze_replay_with_md5 exact_arith (Resolved [(100, 10, 10)] [(100, 10, 10)]) (- 1) = Inr []
   \<and> \<not> isl (analyze_replay_with_md5 exact_arith (Resolved [(100, 10, 10)] [(100, 10, 10)]) (- 1))"
  by (simp add: build_replay_timeline_def find_closest_frame_def Let_def exact_arith_def)

text \<open>
  C8, as amended. \<open>analyze_replay_with_md5\<close> does not check \<open>include_radius\<close>, and a
  negative radius is not an error. With \<open>math.hypot\<close> never negative and a negative
  radius: a call that returns, returns the empty list; whether the call raises, and
  what, is the same for every radius; and the call returns (the empty list) whenever the
  operations of every pass return.
\<close>

theorem negative_radius_rejects_all:
  assumes "include_radius < 0"
    and "\<forall>dx dy d. fl_hypot ar dx dy = Inr d \<longrightarrow> 0 \<le> d"
  shows "(\<forall>errors. analyze_replay_with_md5 ar source include_radius = Inr errors
            \<longrightarrow> errors = [])
       \<and> (\<forall>e r. analyze_replay_with_md5 ar source include_radius = Inl e
            \<longleftrightarrow> analyze_replay_with_md5 ar source r = Inl e)
       \<and> ((case source of
              Resolved hitobjects replay_data \<Rightarrow>
                list_all (pass_returns ar (build_replay_timeline replay_data)) hitobjects
            | _ \<Rightarrow> True)
            \<longrightarrow> analyze_replay_with_md5 ar source include_radius = Inr [])"
proof (cases source)
  case (Resolved hitobjects replay_data)
  let ?fr = "build_replay_timeline replay_data"
  have empty: "concat (map (deviation_of ar ?fr include_radius) hitobjects) = []"
    using deviation_of_negative [OF assms] by simp
  have a: "\<forall>errors. analyze_replay_with_md5 ar source include_radius = Inr errors
            \<longrightarrow> errors = []"
    using errors_loop_Inr [of ar ?fr hitobjects include_radius "[]"] empty
    by (simp add: Resolved)
  have b: "\<forall>e r. analyze_replay_with_md5 ar source include_radius = Inl e
            \<longleftrightarrow> analyze_replay_with_md5 ar source r = Inl e"
    using errors_loop_Inl_radius [of ar ?fr hitobjects include_radius "[]" _ _ "[]"]
    by (simp add: Resolved)
  have c: "list_all (pass_returns ar ?fr) hitobjects
            \<longrightarrow> analyze_replay_with_md5 ar source include_radius = Inr []"
  proof
    assume "list_all (pass_returns ar ?fr) hitobjects"
    then obtain out where "errors_loop ar ?fr hitobjects include_radius [] = Inr out"
      using errors_loop_returns [of ar ?fr hitobjects include_radius "[]"] by auto
    then show "analyze_replay_with_md5 ar source include_radius = Inr []"
      using a by (simp add: Resolved)
  qed
  from a b c show ?thesis by (simp add: Resolved)
qed simp_all

theorem negative_radius_rejects_all_witness:
  "(- 2 :: real) < 0
   \<and> analyze_replay_with_md5 exact_arith
        (Resolved [(5, 1, 1), (40, 2, 2)] [(5, 1, 1), (30, 2, 3)]) (- 2) = Inr []"
proof -
  let ?evs = "[(5, 1, 1), (30, 2, 3)] :: event list"
  let ?hs = "[(5, 1, 1), (40, 2, 2)] :: hitobject list"
  have h1: "(- 2 :: real) < 0" by simp
  have h2: "\<forall>dx dy d. fl_hypot exact_arith dx dy = Inr d \<longrightarrow> 0 \<le> d"
    by (auto simp add: exact_arith_def)
  have ret: "list_all (pass_returns exact_arith (build_replay_timeline ?evs)) ?hs"
    by (simp add: build_replay_timeline_def pass_returns_def find_closest_frame_def
        Let_def exact_arith_def)
  have "analyze_replay_with_md5 exact_arith (Resolved ?hs ?evs) (- 2) = Inr []"
    using negative_radius_rejects_all [OF h1 h2, of "Resolved ?hs ?evs"] ret by simp
  with h1 show ?thesis by blast
qed

section \<open>The adjustment suggestion\<close>

text \<open>With the arithmetic that does not round, the second model of the summary is the first.\<close>

lemma percentages_fl_exact: "percentages_fl exact_arith xs n = percentages xs n"
  by (induction xs) (auto simp add: exact_arith_def split: sum.splits)

lemma summarize_errors_fl_exact:
  "summarize_errors_fl exact_arith errors w h th = summarize_errors errors w h th"
proof -
  have ops: "fl_mean exact_arith = statistics_mean" "fl_div exact_arith = truediv"
    "\<And>a b. fl_mul exact_arith a b = Inr (a * b)"
    by (simp_all add: exact_arith_def)
  have d: "\<And>a b. b \<noteq> 0 \<Longrightarrow> truediv a b = Inr (a / b)" by (simp add: truediv_def)
  show ?thesis
    unfolding summarize_errors_fl_def summarize_errors_def
    by (simp add: ops d percentages_fl_exact Let_def split: sum.splits)
qed

text \<open>
  When the operations return, the report of \<open>summarize_errors_fl\<close> on a non-empty list
  is the following value, built from what the operations returned.
\<close>

lemma summarize_errors_fl_value:
  assumes "errors \<noteq> []"
    and "fl_mean ar (map fst errors) = Inr mean_dx"
    and "fl_mean ar (map snd errors) = Inr mean_dy"
    and "fl_div ar mean_dx 512 = Inr qx" and "fl_mul ar qx area_w_mm = Inr mx"
    and "fl_div ar mean_dy 384 = Inr qy" and "fl_mul ar qy area_h_mm = Inr my"
    and "percentages_fl ar
           (items (quadrant_loop errors
              \<lparr>top_left = 0, top_right = 0, bottom_left = 0, bottom_right = 0\<rparr>))
           (length errors) = Inr pcts"
  shows "summarize_errors_fl ar errors area_w_mm area_h_mm th =
     Inr (Report
       \<lparr>total_samples = length errors, mean_dx_px = mean_dx, mean_dy_px = mean_dy,
        mean_dx_area = mx, mean_dy_area = my, quadrant_pct = pcts\<rparr>
       (if \<bar>mx\<bar> < th \<and> \<bar>my\<bar> < th
        then No_adjustment th
        else Adjustment
          \<lparr>bias_x_mm = \<bar>mx\<bar>,
           bias_x_dir = (if mean_dx > 0 then ''right'' else ''left''),
           bias_y_mm = \<bar>my\<bar>,
           bias_y_dir = (if mean_dy > 0 then ''down'' else ''up''),
           shift_x_mm = \<bar>- mx\<bar>,
           shift_x_dir = (if - mx > 0 then ''right'' else ''left''),
           shift_y_mm = \<bar>- my\<bar>,
           shift_y_dir = (if - my > 0 then ''down'' else ''up'')\<rparr>))"
  unfolding summarize_errors_fl_def
  by (simp only: assms if_False sum.case Let_def)
    (simp only: if_distrib [of Inr] if_distrib [of "Report s" for s])

text \<open>
  C6. On a non-empty list, whatever \<open>statistics.mean\<close>, \<open>/\<close> and \<open>*\<close> return: let
  \<open>mx\<close> be the program's value of \<open>meanDx / 512 * area_w_mm\<close> and \<open>my\<close> its value of
  \<open>meanDy / 384 * area_h_mm\<close> (the means, quotients, products and percentages being
  what the operations returned). Then the function returns a report with these two
  values; the report says "no adjustment" if and only if \<open>\<bar>mx\<bar> < th\<close> and
  \<open>\<bar>my\<bar> < th\<close>; otherwise it suggests a shift on each axis whose magnitude is
  \<open>\<bar>mx\<bar>\<close>, \<open>\<bar>my\<bar>\<close> and whose direction, read back as a sign, makes it \<open>- mx\<close>,
  \<open>- my\<close>: the magnitude of an axis is reported whether or not that axis alone is
  below the threshold.
\<close>

theorem suggestion_threshold:
  assumes "errors \<noteq> []"
    and "fl_mean ar (map fst errors) = Inr mean_dx"
    and "fl_mean ar (map snd errors) = Inr mean_dy"
    and "fl_div ar mean_dx 512 = Inr qx" and "fl_mul ar qx area_w_mm = Inr mx"
    and "fl_div ar mean_dy 384 = Inr qy" and "fl_mul ar qy area_h_mm = Inr my"
    and "percentages_fl ar
           (items (quadrant_loop errors
              \<lparr>top_left = 0, top_right = 0, bottom_left = 0, bottom_right = 0\<rparr>))
           (length errors) = Inr pcts"
  shows "(\<exists>s g. summarize_errors_fl ar errors area_w_mm area_h_mm th = Inr (Report s g)
            \<and> mean_dx_area s = mx \<and> mean_dy_area s = my)
       \<and> ((\<exists>s t. summarize_errors_fl ar errors area_w_mm area_h_mm th
                    = Inr (Report s (No_adjustment t)))
            \<longleftrightarrow> \<bar>mx\<bar> < th \<and> \<bar>my\<bar> < th)
       \<and> (\<not> (\<bar>mx\<bar> < th \<and> \<bar>my\<bar> < th) \<longrightarrow>
            (\<exists>s a. summarize_errors_fl ar errors area_w_mm area_h_mm th
                     = Inr (Report s (Adjustment a))
               \<and> shift_x_mm a = \<bar>mx\<bar> \<and> signed_x (shift_x_dir a) (shift_x_mm a) = - mx
               \<and> shift_y_mm a = \<bar>my\<bar> \<and> signed_y (shift_y_dir a) (shift_y_mm a) = - my))"
proof -
  note val = summarize_errors_fl_value [OF assms, of th]
  show ?thesis
  proof (cases "\<bar>mx\<bar> < th \<and> \<bar>my\<bar> < th")
    case True
    then show ?thesis by (simp add: val)
  next
    case False
    have sx: "signed_x (if 0 < - mx then ''right'' else ''left'') \<bar>- mx\<bar> = - mx"
      by (simp add: signed_x_def)
    have sy: "signed_y (if 0 < - my then ''down'' else ''up'') \<bar>- my\<bar> = - my"
      by (simp add: signed_y_def)
    show ?thesis using False sx sy by (simp add: val)
  qed
qed

text \<open>
  An instance where the float operations are exact: a mean of \<open>(4, 0)\<close> on an area of
  512 by 384 is a bias of 4 mm on the x axis alone, and the suggestion is 4 mm to the
  left and 0 mm on the y axis.
\<close>

theorem suggestion_threshold_witness:
  "[(4, 0) :: deviation] \<noteq> []
   \<and> fl_mean exact_arith (map fst [(4, 0) :: deviation]) = Inr 4
   \<and> fl_mean exact_arith (map snd [(4, 0) :: deviation]) = Inr 0
   \<and> fl_div exact_arith 4 512 = Inr (1 / 128) \<and> fl_mul exact_arith (1 / 128) 512 = Inr 4
   \<and> fl_div exact_arith 0 384 = Inr 0 \<and> fl_mul exact_arith 0 384 = Inr 0
   \<and> \<not> (\<bar>4 :: real\<bar> < 1 / 4 \<and> \<bar>0 :: real\<bar> < 1 / 4)
   \<and> (\<exists>s a. summarize_errors_fl exact_arith [(4, 0)] 512 384 (1 / 4)
                = Inr (Report s (Adjustment a))
          \<and> shift_x_mm a = 4 \<and> signed_x (shift_x_dir a) (shift_x_mm a) = - 4
          \<and> shift_y_mm a = 0 \<and> signed_y (shift_y_dir a) (shift_y_mm a) = 0)"
proof -
  have h1: "[(4, 0) :: deviation] \<noteq> []" by simp
  have h2: "fl_mean exact_arith (map fst [(4, 0) :: deviation]) = Inr 4"
    by (simp add: exact_arith_def statistics_mean_def)
  have h3: "fl_mean exact_arith (map snd [(4, 0) :: deviation]) = Inr 0"
    by (simp add: exact_arith_def statistics_mean_def)
  have h4: "fl_div exact_arith 4 512 = Inr (1 / 128)"
    by (simp add: exact_arith_def truediv_def)
  have h5: "fl_mul exact_arith (1 / 128) 512 = Inr 4" by (simp add: exact_arith_def)
  have h6: "fl_div exact_arith 0 384 = Inr 0" by (simp add: exact_arith_def truediv_def)
  have h7: "fl_mul exact_arith 0 384 = Inr 0" by (simp add: exact_arith_def)
  have h8: "percentages_fl exact_arith
           (items (quadrant_loop [(4, 0)]
              \<lparr>top_left = 0, top_right = 0, bottom_left = 0, bottom_right = 0\<rparr>))
           (length [(4, 0) :: deviation])
         = Inr [(''top-left'', 0), (''top-right'', 0), (''bottom-left'', 0), (''bottom-right'', 100)]"
    by (simp add: items_def exact_arith_def truediv_def)
  have h9: "\<not> (\<bar>4 :: real\<bar> < 1 / 4 \<and> \<bar>0 :: real\<bar> < 1 / 4)" by simp
  have "\<exists>s a. summarize_errors_fl exact_arith [(4, 0)] 512 384 (1 / 4)
                = Inr (Report s (Adjustment a))
          \<and> shift_x_mm a = 4 \<and> signed_x (shift_x_dir a) (shift_x_mm a) = - 4
          \<and> shift_y_mm a = 0 \<and> signed_y (shift_y_dir a) (shift_y_mm a) = 0"
    using suggestion_threshold [OF h1 h2 h3 h4 h5 h6 h7 h8, of "1 / 4"] h9 by simp
  with h1 h2 h3 h4 h5 h6 h7 h9 show ?thesis by blast
qed

end
